theory Spec2Isabelle
  imports Complex_Main "HOL-Library.Multiset"
begin

section \<open>The matchmaking store of the lobby client\<close>

text \<open>
  A shallow embedding of \<^verbatim>\<open>src/renderer/store/matchmaking.store.ts\<close>.
  The reactive store object is a record; every handler of the module is a function from
  the state before to the state after. JavaScript runs each handler without interruption
  up to its next \<^verbatim>\<open>await\<close>, so an asynchronous function is given by the
  pieces between its suspension points, and the values that the outside world hands back
  (a transport response, the result of a database query, the order in which promises
  settle) are arguments of the model.

  JavaScript numbers that hold progress fractions are modelled as exact rationals. The
  only arithmetic the module does on them is \<^verbatim>\<open>Math.min(p + c, 1)\<close> with
  \<open>c\<close> one of 0.08, 0.12 and 0.06, starting from 0; none of the sums comes within
  rounding distance of 1 before it passes 1 (0.96 is the last value below 1 for each),
  so the comparison with 1 has the same outcome on doubles and on rationals.
\<close>

subsection \<open>Data\<close>

datatype MatchmakingStatus = Idle | JoinRequested | Searching | MatchFound | MatchAccepted

text \<open>A rejected promise or a thrown exception; the module never inspects the value.\<close>

datatype error = RequestFailed | QueryFailed

datatype severity = Info | Error

record alert =
  alert_text :: string
  alert_severity :: severity

text \<open>
  \<^verbatim>\<open>PrivateBattle\<close> of the protocol; the nested objects \<^verbatim>\<open>engine.version\<close>,
  \<^verbatim>\<open>game.springName\<close> and \<^verbatim>\<open>map.springName\<close> are flattened into fields.
\<close>

record PrivateBattle =
  username :: string
  password :: string
  ip :: string
  port :: int
  engine_version :: string
  game_springName :: string
  map_springName :: string

record UserSelfEventData =
  user_currentBattle :: "PrivateBattle option"

text \<open>
  A playlist of the \<^verbatim>\<open>matchmaking/list\<close> response. The module guards every use of
  the three lists against an absent value (\<^verbatim>\<open>!maps ||\<close>, \<^verbatim>\<open>queue.engines?.[0]\<close>),
  so they are optional here; an entry \<^verbatim>\<open>{ mapName }\<close>, \<^verbatim>\<open>{ version }\<close> or
  \<^verbatim>\<open>{ springName }\<close> is the string it holds.
\<close>

record Playlist =
  playlist_id :: string
  playlist_name :: string
  maps :: "string list option"
  engines :: "string list option"
  games :: "string list option"

record readiness =
  mapsNeeded :: bool
  engineNeeded :: bool
  gameNeeded :: bool
  engineVersion :: string
  gameVersion :: string

record DownloadProgress =
  progress_map :: rat
  progress_engine :: rat
  progress_game :: rat

record matchmakingStore =
  isInitialized :: bool
  isDrawerOpen :: bool
  status :: MatchmakingStatus
  errorMessage :: "string option"
  selectedQueue :: string
  playlists :: "Playlist list"
  isLoadingQueues :: bool
  queueError :: "string option"
  playersReady :: "int option"
  playersQueued :: "int option"
  downloadsRequired :: "string \<rightharpoonup> readiness"
  currentBattle :: "PrivateBattle option"
  isDownloadingContent :: bool
  downloadProgress :: DownloadProgress

text \<open>
  The closure of one \<^verbatim>\<open>setInterval\<close> timer of \<^verbatim>\<open>simulateProgress\<close>: its three
  local variables, and whether \<^verbatim>\<open>clearInterval\<close> has been called on it.
\<close>

record interval =
  mapProgress :: rat
  engineProgress :: rat
  gameProgress :: rat
  cleared :: bool

text \<open>
  What the module can change: the store, the timers it has registered, and the
  notifications it has sent through \<^verbatim>\<open>notificationsApi.alert\<close>, oldest first.
\<close>

record world =
  store :: matchmakingStore
  intervals :: "interval list"
  alerts :: "alert list"

definition zeroProgress :: DownloadProgress where
  "zeroProgress = \<lparr>progress_map = 0, progress_engine = 0, progress_game = 0\<rparr>"

definition fullProgress :: DownloadProgress where
  "fullProgress = \<lparr>progress_map = 1, progress_engine = 1, progress_game = 1\<rparr>"

definition initialStore :: matchmakingStore where
  "initialStore =
     \<lparr>isInitialized = False, isDrawerOpen = False, status = Idle, errorMessage = None,
      selectedQueue = ''1v1'', playlists = [], isLoadingQueues = False, queueError = None,
      playersReady = Some 0, playersQueued = Some 0, downloadsRequired = Map.empty,
      currentBattle = None, isDownloadingContent = False, downloadProgress = zeroProgress\<rparr>"

definition initialWorld :: world where
  "initialWorld = \<lparr>store = initialStore, intervals = [], alerts = []\<rparr>"

definition notify :: "string \<Rightarrow> severity \<Rightarrow> world \<Rightarrow> world" where
  "notify t s w = w\<lparr>alerts := alerts w @ [\<lparr>alert_text = t, alert_severity = s\<rparr>]\<rparr>"

definition setStatus :: "MatchmakingStatus \<Rightarrow> world \<Rightarrow> world" where
  "setStatus st w = w\<lparr>store := (store w)\<lparr>status := st\<rparr>\<rparr>"

subsection \<open>Handlers of the pushed events\<close>

definition onQueueUpdateEvent :: "int \<Rightarrow> world \<Rightarrow> world" where
  "onQueueUpdateEvent n w = w\<lparr>store := (store w)\<lparr>playersQueued := Some n\<rparr>\<rparr>"

definition onLostEvent :: "world \<Rightarrow> world" where
  "onLostEvent w = setStatus Searching w"

definition onFoundUpdateEvent :: "int \<Rightarrow> world \<Rightarrow> world" where
  "onFoundUpdateEvent n w = w\<lparr>store := (store w)\<lparr>playersReady := Some n\<rparr>\<rparr>"

definition onCancelledEvent :: "world \<Rightarrow> world" where
  "onCancelledEvent w = setStatus Idle w"

definition onFoundEvent :: "world \<Rightarrow> world" where
  "onFoundEvent w = setStatus MatchFound w"

definition onQueuesJoinedEvent :: "world \<Rightarrow> world" where
  "onQueuesJoinedEvent w = setStatus Searching w"

subsection \<open>The download orchestrator\<close>

definition testAssetDownload :: bool where
  "testAssetDownload = True"

definition successAlert :: alert where
  "successAlert =
     \<lparr>alert_text = ''Battle content downloaded. Ready to launch!'', alert_severity = Info\<rparr>"

definition failureAlert :: alert where
  "failureAlert =
     \<lparr>alert_text = ''Failed to download required content for battle'', alert_severity = Error\<rparr>"

text \<open>
  Modelled from the spec: the asset download adapter behind \<^verbatim>\<open>downloadMap\<close>,
  \<^verbatim>\<open>downloadEngine\<close> and \<^verbatim>\<open>downloadGame\<close>, which are functions of other modules.
  A download is a stream of progress reports that ends in success or in failure: the
  reports reach the listener of the download's own channel while the download is awaited,
  and then the promise of the call resolves or rejects. A \<^verbatim>\<open>DownloadInfo\<close> report carries
  the name of an asset and a fraction.
\<close>

record DownloadInfo =
  info_name :: string
  info_progress :: rat

datatype assetType = MapAsset | EngineAsset | GameAsset

record task =
  reports :: "DownloadInfo list"
  succeeds :: bool

record downloadTasks =
  mapTask :: task
  engineTask :: task
  gameTask :: task

definition setProgress :: "assetType \<Rightarrow> rat \<Rightarrow> world \<Rightarrow> world" where
  "setProgress ty p w =
     (let dp = downloadProgress (store w) in
      w\<lparr>store := (store w)\<lparr>downloadProgress :=
        (case ty of
           MapAsset \<Rightarrow> dp\<lparr>progress_map := p\<rparr>
         | EngineAsset \<Rightarrow> dp\<lparr>progress_engine := p\<rparr>
         | GameAsset \<Rightarrow> dp\<lparr>progress_game := p\<rparr>)\<rparr>\<rparr>)"

definition getProgress :: "assetType \<Rightarrow> world \<Rightarrow> rat" where
  "getProgress ty w =
     (let dp = downloadProgress (store w) in
      case ty of
        MapAsset \<Rightarrow> progress_map dp
      | EngineAsset \<Rightarrow> progress_engine dp
      | GameAsset \<Rightarrow> progress_game dp)"

definition assetName :: "PrivateBattle \<Rightarrow> assetType \<Rightarrow> string" where
  "assetName battle ty =
     (case ty of
        MapAsset \<Rightarrow> map_springName battle
      | EngineAsset \<Rightarrow> engine_version battle
      | GameAsset \<Rightarrow> game_springName battle)"

definition createProgressListener ::
  "PrivateBattle \<Rightarrow> assetType \<Rightarrow> DownloadInfo \<Rightarrow> world \<Rightarrow> world" where
  "createProgressListener battle ty downloadInfo w =
     (if info_name downloadInfo = assetName battle ty
      then setProgress ty (info_progress downloadInfo) w
      else w)"

definition downloadFinally :: "world \<Rightarrow> world" where
  "downloadFinally w = w\<lparr>store := (store w)\<lparr>isDownloadingContent := False\<rparr>\<rparr>"

definition downloadCatch :: "world \<Rightarrow> world" where
  "downloadCatch w = notify (alert_text failureAlert) (alert_severity failureAlert) w"

text \<open>
  One awaited download of the \<^verbatim>\<open>try\<close> block: the listener sees the task's progress
  events; a resolution stores progress 1, a rejection leaves the block. The error comes
  with the state reached when it was thrown, on which the \<^verbatim>\<open>catch\<close> block runs.
\<close>

definition awaitDownload ::
  "PrivateBattle \<Rightarrow> assetType \<Rightarrow> task \<Rightarrow> world \<Rightarrow> (error \<times> world) + world" where
  "awaitDownload battle ty t w =
     (let w' = fold (createProgressListener battle ty) (reports t) w in
      if succeeds t then Inr (setProgress ty 1 w') else Inl (RequestFailed, w'))"

definition realDownloadTry ::
  "downloadTasks \<Rightarrow> PrivateBattle \<Rightarrow> world \<Rightarrow> (error \<times> world) + world" where
  "realDownloadTry ts battle w =
     (case awaitDownload battle MapAsset (mapTask ts) w of
        Inl e \<Rightarrow> Inl e
      | Inr w1 \<Rightarrow>
     (case awaitDownload battle EngineAsset (engineTask ts) w1 of
        Inl e \<Rightarrow> Inl e
      | Inr w2 \<Rightarrow>
     (case awaitDownload battle GameAsset (gameTask ts) w2 of
        Inl e \<Rightarrow> Inl e
      | Inr w3 \<Rightarrow>
          Inr (notify (alert_text successAlert) (alert_severity successAlert) w3))))"

definition realDownload :: "downloadTasks \<Rightarrow> PrivateBattle \<Rightarrow> world \<Rightarrow> world" where
  "realDownload ts battle w =
     downloadFinally
       (case realDownloadTry ts battle w of
          Inr w' \<Rightarrow> w'
        | Inl (e, w') \<Rightarrow> downloadCatch w')"

text \<open>
  The simulated branch. \<^verbatim>\<open>simulateProgress\<close> registers a timer with its three locals
  at 0 and returns a promise; the function then waits for that promise.
\<close>

definition simulateProgress :: "world \<Rightarrow> world" where
  "simulateProgress w =
     w\<lparr>intervals := intervals w @
        [\<lparr>mapProgress = 0, engineProgress = 0, gameProgress = 0, cleared = False\<rparr>]\<rparr>"

text \<open>
  One firing of timer \<open>i\<close>. A timer that was never registered or has been cleared does
  not fire. When the three locals are 1 the timer is cleared and the promise resolved:
  the rest of \<^verbatim>\<open>downloadBattleContent\<close> (the success notification and the
  \<^verbatim>\<open>finally\<close> block) runs before any other handler.
\<close>

definition intervalTick :: "nat \<Rightarrow> world \<Rightarrow> world" where
  "intervalTick i w =
     (if i < length (intervals w) \<and> \<not> cleared (intervals w ! i) then
        let t = intervals w ! i;
            m = min (mapProgress t + 0.08) 1;
            e = min (engineProgress t + 0.12) 1;
            g = min (gameProgress t + 0.06) 1;
            t' = t\<lparr>mapProgress := m, engineProgress := e, gameProgress := g\<rparr>;
            w' = w\<lparr>store := (store w)\<lparr>downloadProgress :=
                    \<lparr>progress_map = m, progress_engine = e, progress_game = g\<rparr>\<rparr>\<rparr>
        in if m = 1 \<and> e = 1 \<and> g = 1
           then downloadFinally
                  (notify (alert_text successAlert) (alert_severity successAlert)
                     (w'\<lparr>intervals := (intervals w)[i := t'\<lparr>cleared := True\<rparr>]\<rparr>))
           else w'\<lparr>intervals := (intervals w)[i := t']\<rparr>
      else w)"

text \<open>
  \<^verbatim>\<open>downloadBattleContent\<close> up to its first suspension point in the simulated branch
  (the timer is registered and the caller gets control back); the real branch, which the
  flag switches off, is run to its end.
\<close>

definition downloadBattleContent :: "downloadTasks \<Rightarrow> PrivateBattle \<Rightarrow> world \<Rightarrow> world" where
  "downloadBattleContent ts battle w =
     (let w1 = w\<lparr>store := (store w)\<lparr>currentBattle := Some battle,
                                     isDownloadingContent := True,
                                     downloadProgress := zeroProgress\<rparr>\<rparr>
      in if testAssetDownload then simulateProgress w1 else realDownload ts battle w1)"

definition onUserSelfEvent :: "downloadTasks \<Rightarrow> UserSelfEventData \<Rightarrow> world \<Rightarrow> world" where
  "onUserSelfEvent ts data w =
     (case user_currentBattle data of
        Some battle \<Rightarrow>
          if status (store w) = MatchAccepted then downloadBattleContent ts battle w else w
      | None \<Rightarrow> w)"

subsection \<open>The readiness resolver\<close>

text \<open>
  The local inventory the three checks read: the \<^verbatim>\<open>maps\<close> table of the database,
  the engine versions of \<^verbatim>\<open>enginesStore\<close> and the game versions of
  \<^verbatim>\<open>gameStore\<close>. They belong to other modules and are parameters here.
  \<open>dbRejects\<close> says for which key lists the database query fails.
\<close>

record MapData =
  isInstalled :: bool

record EngineVersion =
  engine_id :: string

record inventory =
  dbMaps :: "string \<rightharpoonup> MapData"
  dbRejects :: "string list \<Rightarrow> bool"
  availableEngineVersions :: "EngineVersion list"
  availableGameVersions :: "string set"

text \<open>
  Modelled from the spec: \<^verbatim>\<open>db.maps.bulkGet\<close>, a query of the inventory adapter that
  is not part of this module. It answers with one entry per key, in the order of the
  keys, \<^verbatim>\<open>undefined\<close> for a key the table does not have, or it fails as a whole.
\<close>

definition bulkGet :: "inventory \<Rightarrow> string list \<Rightarrow> error + MapData option list" where
  "bulkGet invt keys =
     (if dbRejects invt keys then Inl QueryFailed else Inr (map (dbMaps invt) keys))"

text \<open>The \<^verbatim>\<open>for\<close> loop of \<^verbatim>\<open>checkIfAnyMapsAreNeeded\<close> over the answer.\<close>

fun mapsLoop :: "MapData option list \<Rightarrow> bool" where
  "mapsLoop [] = False"
| "mapsLoop (m # dbMaps') =
     (case m of
        None \<Rightarrow> True
      | Some d \<Rightarrow> if \<not> isInstalled d then True else mapsLoop dbMaps')"

definition checkIfAnyMapsAreNeeded :: "inventory \<Rightarrow> string list option \<Rightarrow> error + bool" where
  "checkIfAnyMapsAreNeeded invt ms =
     (case ms of
        None \<Rightarrow> Inr False
      | Some queueMaps \<Rightarrow>
          if length queueMaps = 0 then Inr False
          else (case bulkGet invt queueMaps of
                  Inl e \<Rightarrow> Inl e
                | Inr dbMaps' \<Rightarrow> Inr (mapsLoop dbMaps')))"

definition checkIfEngineIsNeeded :: "inventory \<Rightarrow> string list option \<Rightarrow> bool" where
  "checkIfEngineIsNeeded invt es =
     (case es of
        None \<Rightarrow> False
      | Some requiredVersions \<Rightarrow>
          if length requiredVersions = 0 then False
          else (let installedVersions = map engine_id (availableEngineVersions invt)
                in \<not> list_ex (\<lambda>required. List.member installedVersions required)
                       requiredVersions))"

definition checkIfGameIsNeeded :: "inventory \<Rightarrow> string list option \<Rightarrow> bool" where
  "checkIfGameIsNeeded invt gs =
     (case gs of
        None \<Rightarrow> False
      | Some requiredGames \<Rightarrow>
          if length requiredGames = 0 then False
          else \<not> list_ex (\<lambda>required. required \<in> availableGameVersions invt) requiredGames)"

text \<open>\<^verbatim>\<open>xs?.[0] ?? ""\<close> on an optional list of strings.\<close>

definition firstOrEmpty :: "string list option \<Rightarrow> string" where
  "firstOrEmpty xs = (case xs of Some (x # _) \<Rightarrow> x | _ \<Rightarrow> [])"

text \<open>
  The callback that \<^verbatim>\<open>sendListRequest\<close> maps over the playlists: the record it
  computes for a playlist, or the error with which its promise rejects.
\<close>

definition queueTask :: "inventory \<Rightarrow> Playlist \<Rightarrow> error + readiness" where
  "queueTask invt queue =
     (case checkIfAnyMapsAreNeeded invt (maps queue) of
        Inl e \<Rightarrow> Inl e
      | Inr needed \<Rightarrow>
          Inr \<lparr>mapsNeeded = needed,
               engineNeeded = checkIfEngineIsNeeded invt (engines queue),
               gameNeeded = checkIfGameIsNeeded invt (games queue),
               engineVersion = firstOrEmpty (engines queue),
               gameVersion = firstOrEmpty (games queue)\<rparr>)"

definition listCatch :: "world \<Rightarrow> world" where
  "listCatch w =
     (let w' = notify ''Tachyon error: matchmaking/list'' Error w
      in w'\<lparr>store := (store w')\<lparr>queueError := Some ''Failed to retrieve available queues''\<rparr>\<rparr>)"

definition listFinally :: "world \<Rightarrow> world" where
  "listFinally w = w\<lparr>store := (store w)\<lparr>isLoadingQueues := False\<rparr>\<rparr>"

definition writeRecord :: "Playlist \<Rightarrow> readiness \<Rightarrow> world \<Rightarrow> world" where
  "writeRecord queue r w =
     w\<lparr>store := (store w)\<lparr>downloadsRequired :=
        (downloadsRequired (store w))(playlist_id queue \<mapsto> r)\<rparr>\<rparr>"

text \<open>
  \<^verbatim>\<open>Promise.all\<close> over the callbacks. The callbacks settle one at a time, in an order
  that the database decides: the list \<open>order\<close>. The result is the list of the states
  after each settlement, which are those that other code can observe in between. A
  callback that resolves writes its record. The first callback that rejects rejects the
  \<^verbatim>\<open>Promise.all\<close>, whereupon the \<^verbatim>\<open>catch\<close> and \<^verbatim>\<open>finally\<close> blocks of
  \<^verbatim>\<open>sendListRequest\<close> run; the callbacks that are still pending are not cancelled
  and write their records when they resolve. When all have resolved, the \<^verbatim>\<open>finally\<close>
  block runs. \<open>rejected\<close> says whether a callback has rejected before.
\<close>

fun settleTasks :: "inventory \<Rightarrow> Playlist list \<Rightarrow> bool \<Rightarrow> world \<Rightarrow> world list" where
  "settleTasks invt [] rejected w = (if rejected then [] else [listFinally w])"
| "settleTasks invt (queue # order) rejected w =
     (case queueTask invt queue of
        Inl e \<Rightarrow>
          (let w' = (if rejected then w else listFinally (listCatch w))
           in w' # settleTasks invt order True w')
      | Inr r \<Rightarrow>
          (let w' = writeRecord queue r w
           in w' # settleTasks invt order rejected w'))"

text \<open>
  \<^verbatim>\<open>sendListRequest\<close>: the states it goes through, the first after the call has
  sent the request, the last when everything it started has settled. \<open>response\<close> is
  the outcome of the \<^verbatim>\<open>matchmaking/list\<close> request; \<open>order\<close> lists the playlists of
  the response in the order in which their callbacks settle.
\<close>

definition sendListRequest_states ::
  "inventory \<Rightarrow> error + Playlist list \<Rightarrow> Playlist list \<Rightarrow> world \<Rightarrow> world list" where
  "sendListRequest_states invt response order w =
     (let w1 = w\<lparr>store := (store w)\<lparr>isLoadingQueues := True, queueError := None\<rparr>\<rparr>
      in w1 #
        (case response of
           Inl e \<Rightarrow> [listFinally (listCatch w1)]
         | Inr pls \<Rightarrow>
             (let hasSelectedQueue =
                    list_ex (\<lambda>playlist. playlist_id playlist = selectedQueue (store w1)) pls;
                  w2 = w1\<lparr>store := (store w1)
                         \<lparr>playlists := pls,
                          selectedQueue :=
                            (if length pls > 0 \<and> \<not> hasSelectedQueue
                             then playlist_id (hd pls) else selectedQueue (store w1)),
                          downloadsRequired := Map.empty\<rparr>\<rparr>
              in w2 # settleTasks invt order False w2)))"

definition sendListRequest ::
  "inventory \<Rightarrow> error + Playlist list \<Rightarrow> Playlist list \<Rightarrow> world \<Rightarrow> world" where
  "sendListRequest invt response order w = last (sendListRequest_states invt response order w)"


subsection \<open>The commands\<close>

definition placeholderBattle :: PrivateBattle where
  "placeholderBattle =
     \<lparr>username = ''string'', password = ''string'', ip = ''string'', port = 0,
      engine_version = [], game_springName = [], map_springName = []\<rparr>"

text \<open>
  \<^verbatim>\<open>sendQueueRequest\<close> when the selected queue has a readiness record: the part up
  to the request, and the part after its response.
\<close>

definition sendQueueRequest_call :: "downloadTasks \<Rightarrow> world \<Rightarrow> world" where
  "sendQueueRequest_call ts w =
     (let w1 = downloadBattleContent ts placeholderBattle w;
          w2 = setStatus JoinRequested w1
      in w2\<lparr>store := (store w2)\<lparr>errorMessage := None\<rparr>\<rparr>)"

definition sendQueueRequest_settle :: "error + unit \<Rightarrow> world \<Rightarrow> world" where
  "sendQueueRequest_settle response w =
     (case response of
        Inr _ \<Rightarrow> setStatus Searching w
      | Inl e \<Rightarrow>
          (let w1 = notify ''Tachyon error: matchmaking/queue'' Error w;
               w2 = w1\<lparr>store := (store w1)\<lparr>errorMessage := Some ''Error with matchmaking/queue''\<rparr>\<rparr>
           in setStatus Idle w2))"

definition sendQueueRequest ::
  "downloadTasks \<Rightarrow> inventory \<Rightarrow> error + Playlist list \<Rightarrow> Playlist list \<Rightarrow> error + unit
     \<Rightarrow> world \<Rightarrow> world" where
  "sendQueueRequest ts invt listResponse order queueResponse w =
     (if downloadsRequired (store w) (selectedQueue (store w)) = None
      then sendListRequest invt listResponse order
             (notify ''Bad queue data; refreshing list.'' Error w)
      else sendQueueRequest_settle queueResponse (sendQueueRequest_call ts w))"

definition sendCancelRequest_call :: "world \<Rightarrow> world" where
  "sendCancelRequest_call w = setStatus Idle w"

definition sendCancelRequest_settle :: "error + unit \<Rightarrow> world \<Rightarrow> world" where
  "sendCancelRequest_settle response w =
     (case response of
        Inr _ \<Rightarrow> w
      | Inl e \<Rightarrow>
          (let w1 = notify ''Tachyon error: matchmaking/cancel'' Error w
           in w1\<lparr>store := (store w1)\<lparr>errorMessage := Some ''Error with matchmaking/cancel''\<rparr>\<rparr>))"

definition sendCancelRequest :: "error + unit \<Rightarrow> world \<Rightarrow> world" where
  "sendCancelRequest response w = sendCancelRequest_settle response (sendCancelRequest_call w)"

definition sendReadyRequest_call :: "world \<Rightarrow> world" where
  "sendReadyRequest_call w = setStatus MatchAccepted w"

definition sendReadyRequest_settle :: "error + unit \<Rightarrow> world \<Rightarrow> world" where
  "sendReadyRequest_settle response w =
     (case response of
        Inr _ \<Rightarrow> w
      | Inl e \<Rightarrow>
          (let w1 = notify ''Tachyon error: matchmaking/ready'' Error (setStatus Idle w)
           in w1\<lparr>store := (store w1)\<lparr>errorMessage := Some ''Error with matchmaking/ready''\<rparr>\<rparr>))"

definition sendReadyRequest :: "error + unit \<Rightarrow> world \<Rightarrow> world" where
  "sendReadyRequest response w = sendReadyRequest_settle response (sendReadyRequest_call w)"

text \<open>
  \<^verbatim>\<open>getPlaylistName\<close>: \<^verbatim>\<open>playlist?.name || id\<close>, where an empty name counts as
  absent.
\<close>

definition getPlaylistName :: "string \<Rightarrow> world \<Rightarrow> string" where
  "getPlaylistName qid w =
     (case find (\<lambda>playlist. playlist_id playlist = qid) (playlists (store w)) of
        None \<Rightarrow> qid
      | Some playlist \<Rightarrow> if playlist_name playlist = [] then qid else playlist_name playlist)"

text \<open>
  \<^verbatim>\<open>initializeMatchmakingStore\<close>. The handlers it registers are the functions above;
  \<open>isConnected\<close> is the flag of \<^verbatim>\<open>tachyonStore\<close>.
\<close>

definition initializeMatchmakingStore ::
  "bool \<Rightarrow> inventory \<Rightarrow> error + Playlist list \<Rightarrow> Playlist list \<Rightarrow> world \<Rightarrow> world" where
  "initializeMatchmakingStore isConnected invt response order w =
     (if isInitialized (store w) then w
      else (let w1 = (if isConnected then sendListRequest invt response order w else w)
            in w1\<lparr>store := (store w1)\<lparr>isInitialized := True\<rparr>\<rparr>))"

subsection \<open>Running a simulated episode to its end\<close>

text \<open>
  A bound on the firings that timer \<open>i\<close> has left: the progress that its three locals
  still have to make, in hundredths, and one more while it is not cleared. Every firing
  of the timer makes it smaller.
\<close>

definition remaining :: "rat \<Rightarrow> nat" where
  "remaining p = nat \<lceil>(1 - p) * 100\<rceil>"

definition ticksLeft :: "nat \<Rightarrow> world \<Rightarrow> nat" where
  "ticksLeft i w =
     (if i < length (intervals w) \<and> \<not> cleared (intervals w ! i)
      then Suc (remaining (mapProgress (intervals w ! i))
              + remaining (engineProgress (intervals w ! i))
              + remaining (gameProgress (intervals w ! i)))
      else 0)"

lemma remaining_mono: "0 < c \<Longrightarrow> remaining (min (p + c) 1) \<le> remaining p"
  unfolding remaining_def
  by (cases "p + c \<le> 1") (auto intro!: nat_mono ceiling_mono simp: min_def)

lemma remaining_less:
  assumes "min (p + of_int k / 100) 1 \<noteq> 1" and "0 < k"
  shows "remaining (min (p + of_int k / 100) 1) < remaining p"
proof -
  from assms have lt: "p + of_int k / 100 < 1" by (auto simp: min_def split: if_splits)
  then have eq: "min (p + of_int k / 100) 1 = p + of_int k / 100" by simp
  have "(1 - (p + of_int k / 100)) * 100 = (1 - p) * 100 - of_int k"
    by (simp add: algebra_simps)
  then have "\<lceil>(1 - (p + of_int k / 100)) * 100\<rceil> = \<lceil>(1 - p) * 100 - of_int k\<rceil>"
    by (simp only:)
  then have c: "\<lceil>(1 - (p + of_int k / 100)) * 100\<rceil> = \<lceil>(1 - p) * 100\<rceil> - k"
    by (simp only: ceiling_diff_of_int)
  from lt have "0 < (1 - (p + of_int k / 100)) * 100" by simp
  then have "0 < \<lceil>(1 - (p + of_int k / 100)) * 100\<rceil>" by simp
  with c have "0 < \<lceil>(1 - p) * 100\<rceil> - k" by simp
  with assms(2) have "nat (\<lceil>(1 - p) * 100\<rceil> - k) < nat \<lceil>(1 - p) * 100\<rceil>" by linarith
  then show ?thesis unfolding remaining_def eq c .
qed

lemma length_intervalTick [simp]: "length (intervals (intervalTick i w)) = length (intervals w)"
  by (simp add: intervalTick_def Let_def downloadFinally_def notify_def)

lemma nth_intervalTick:
  assumes "i < length (intervals w)" and "\<not> cleared (intervals w ! i)"
  shows "intervals (intervalTick i w) ! i =
    \<lparr>mapProgress = min (mapProgress (intervals w ! i) + 0.08) 1,
     engineProgress = min (engineProgress (intervals w ! i) + 0.12) 1,
     gameProgress = min (gameProgress (intervals w ! i) + 0.06) 1,
     cleared = (min (mapProgress (intervals w ! i) + 0.08) 1 = 1
       \<and> min (engineProgress (intervals w ! i) + 0.12) 1 = 1
       \<and> min (gameProgress (intervals w ! i) + 0.06) 1 = 1)\<rparr>"
  using assms by (simp add: intervalTick_def Let_def downloadFinally_def notify_def)

lemma ticksLeft_intervalTick:
  assumes "i < length (intervals w)" and "\<not> cleared (intervals w ! i)"
  shows "ticksLeft i (intervalTick i w) < ticksLeft i w"
proof -
  let ?t = "intervals w ! i"
  let ?m = "min (mapProgress ?t + 0.08) 1"
  let ?e = "min (engineProgress ?t + 0.12) 1"
  let ?g = "min (gameProgress ?t + 0.06) 1"
  have m: "remaining ?m \<le> remaining (mapProgress ?t)"
    and e: "remaining ?e \<le> remaining (engineProgress ?t)"
    and g: "remaining ?g \<le> remaining (gameProgress ?t)"
    by (rule remaining_mono, simp)+
  have m': "?m \<noteq> 1 \<Longrightarrow> remaining ?m < remaining (mapProgress ?t)"
    using remaining_less [of "mapProgress ?t" 8] by simp
  have e': "?e \<noteq> 1 \<Longrightarrow> remaining ?e < remaining (engineProgress ?t)"
    using remaining_less [of "engineProgress ?t" 12] by simp
  have g': "?g \<noteq> 1 \<Longrightarrow> remaining ?g < remaining (gameProgress ?t)"
    using remaining_less [of "gameProgress ?t" 6] by simp
  have nth: "intervals (intervalTick i w) ! i =
    \<lparr>mapProgress = ?m, engineProgress = ?e, gameProgress = ?g,
     cleared = (?m = 1 \<and> ?e = 1 \<and> ?g = 1)\<rparr>"
    using assms by (rule nth_intervalTick)
  show ?thesis
  proof (cases "?m = 1 \<and> ?e = 1 \<and> ?g = 1")
    case True
    with assms show ?thesis
      unfolding ticksLeft_def nth by simp
  next
    case False
    then have "remaining ?m + remaining ?e + remaining ?g
      < remaining (mapProgress ?t) + remaining (engineProgress ?t) + remaining (gameProgress ?t)"
      using m e g m' e' g' by linarith
    with assms False show ?thesis
      unfolding ticksLeft_def nth by simp
  qed
qed

text \<open>
  The whole simulated episode of timer \<open>i\<close>: the timer fires until it is cleared.
\<close>

function runInterval :: "nat \<Rightarrow> world \<Rightarrow> world" where
  "runInterval i w =
     (if i < length (intervals w) \<and> \<not> cleared (intervals w ! i)
      then runInterval i (intervalTick i w)
      else w)"
  by pat_completeness auto
termination
  by (relation "measure (\<lambda>(i, w). ticksLeft i w)") (auto simp: ticksLeft_intervalTick)

declare runInterval.simps [simp del]

text \<open>
  The episode that a call of \<^verbatim>\<open>downloadBattleContent\<close> starts in state \<open>w\<close>, after
  \<open>k\<close> firings of its timer; the value the \<open>k\<close>-th firing stores; and the timer's closure
  after \<open>k\<close> firings.
\<close>

definition episodeAfter :: "downloadTasks \<Rightarrow> PrivateBattle \<Rightarrow> world \<Rightarrow> nat \<Rightarrow> world" where
  "episodeAfter ts battle w k =
     (intervalTick (length (intervals w)) ^^ k) (downloadBattleContent ts battle w)"

definition simulatedAt :: "nat \<Rightarrow> DownloadProgress" where
  "simulatedAt k =
     \<lparr>progress_map = min (of_nat k * 0.08) 1,
      progress_engine = min (of_nat k * 0.12) 1,
      progress_game = min (of_nat k * 0.06) 1\<rparr>"

definition episodeInterval :: "nat \<Rightarrow> interval" where
  "episodeInterval k =
     \<lparr>mapProgress = min (of_nat k * 0.08) 1,
      engineProgress = min (of_nat k * 0.12) 1,
      gameProgress = min (of_nat k * 0.06) 1,
      cleared = (17 \<le> k)\<rparr>"

subsection \<open>Notions of the specification\<close>

text \<open>
  The three questions of the specification's inventory adapter, \<^verbatim>\<open>isMapInstalled\<close>,
  \<^verbatim>\<open>isEngineInstalled\<close> and \<^verbatim>\<open>isGameInstalled\<close>, read off the inventory: a map is
  installed when the table has an entry for it that is marked installed, an engine or a
  game when the store lists it. \<open>battleFields\<close> pairs the two fields of the store
  that belong to the match assignment.
\<close>

definition isMapInstalled :: "inventory \<Rightarrow> string \<Rightarrow> bool" where
  "isMapInstalled invt name = (case dbMaps invt name of None \<Rightarrow> False | Some d \<Rightarrow> isInstalled d)"

definition isEngineInstalled :: "inventory \<Rightarrow> string \<Rightarrow> bool" where
  "isEngineInstalled invt version = (version \<in> engine_id ` set (availableEngineVersions invt))"

definition isGameInstalled :: "inventory \<Rightarrow> string \<Rightarrow> bool" where
  "isGameInstalled invt name = (name \<in> availableGameVersions invt)"

definition battleFields :: "world \<Rightarrow> PrivateBattle option \<times> DownloadProgress" where
  "battleFields w = (currentBattle (store w), downloadProgress (store w))"

subsection \<open>Concrete inputs\<close>

text \<open>Values at which the theorems below are instantiated.\<close>

definition exampleBattle :: PrivateBattle where
  "exampleBattle =
     \<lparr>username = ''u'', password = ''p'', ip = ''10.0.0.1'', port = 8452,
      engine_version = ''E'', game_springName = ''G'', map_springName = ''M''\<rparr>"

definition report :: "string \<Rightarrow> rat \<Rightarrow> DownloadInfo" where
  "report n p = \<lparr>info_name = n, info_progress = p\<rparr>"

definition goodTasks :: downloadTasks where
  "goodTasks =
     \<lparr>mapTask = \<lparr>reports = [report ''M'' 0.5], succeeds = True\<rparr>,
      engineTask = \<lparr>reports = [], succeeds = True\<rparr>,
      gameTask = \<lparr>reports = [report ''G'' 0.25, report ''G'' 0.75], succeeds = True\<rparr>\<rparr>"

definition failingTasks :: downloadTasks where
  "failingTasks =
     \<lparr>mapTask = \<lparr>reports = [report ''M'' 1], succeeds = True\<rparr>,
      engineTask = \<lparr>reports = [report ''E'' 1], succeeds = True\<rparr>,
      gameTask = \<lparr>reports = [report ''G'' 1], succeeds = False\<rparr>\<rparr>"

definition acceptedWorld :: world where
  "acceptedWorld = sendReadyRequest (Inr ()) (onFoundEvent initialWorld)"

definition assignment :: UserSelfEventData where
  "assignment = \<lparr>user_currentBattle = Some exampleBattle\<rparr>"

definition partialInventory :: inventory where
  "partialInventory =
     \<lparr>dbMaps = [''A'' \<mapsto> \<lparr>isInstalled = True\<rparr>],
      dbRejects = (\<lambda>keys. False),
      availableEngineVersions = [\<lparr>engine_id = ''E''\<rparr>],
      availableGameVersions = {''G''}\<rparr>"


definition playlistA :: Playlist where
  "playlistA =
     \<lparr>playlist_id = ''1v1'', playlist_name = ''Duel'', maps = Some [''A''],
      engines = Some [''E''], games = Some [''G'']\<rparr>"


definition overlapWorld :: world where
  "overlapWorld =
     intervalTick 0 (onUserSelfEvent goodTasks assignment
       (intervalTick 0 (intervalTick 0 (onUserSelfEvent goodTasks assignment acceptedWorld))))"

definition listedWorld :: world where
  "listedWorld = sendListRequest partialInventory (Inr [playlistA]) [playlistA] initialWorld"

section \<open>Properties\<close>

subsection \<open>The simulated episode in closed form\<close>

lemma min_step: "0 \<le> c \<Longrightarrow> min (min a 1 + c) (1::rat) = min (a + c) 1"
  by (auto simp: min_def)

lemma full_iff:
  "(min (of_nat n * 0.08) (1::rat) = 1 \<and> min (of_nat n * 0.12) (1::rat) = 1
     \<and> min (of_nat n * 0.06) (1::rat) = 1) = (17 \<le> n)"
proof -
  have a: "(1 \<le> of_nat n * (0.08::rat)) = (100 \<le> 8 * n)"
  proof -
    have "(1 \<le> of_nat n * (0.08::rat)) = ((of_nat 100 :: rat) \<le> of_nat (8 * n))"
      by (simp add: field_simps)
    then show ?thesis by (simp only: of_nat_le_iff)
  qed
  have b: "(1 \<le> of_nat n * (0.12::rat)) = (100 \<le> 12 * n)"
  proof -
    have "(1 \<le> of_nat n * (0.12::rat)) = ((of_nat 100 :: rat) \<le> of_nat (12 * n))"
      by (simp add: field_simps)
    then show ?thesis by (simp only: of_nat_le_iff)
  qed
  have c: "(1 \<le> of_nat n * (0.06::rat)) = (100 \<le> 6 * n)"
  proof -
    have "(1 \<le> of_nat n * (0.06::rat)) = ((of_nat 100 :: rat) \<le> of_nat (6 * n))"
      by (simp add: field_simps)
    then show ?thesis by (simp only: of_nat_le_iff)
  qed
  have "(min (of_nat n * 0.08) (1::rat) = 1 \<and> min (of_nat n * 0.12) (1::rat) = 1
     \<and> min (of_nat n * 0.06) (1::rat) = 1) =
     (1 \<le> of_nat n * (0.08::rat) \<and> 1 \<le> of_nat n * (0.12::rat) \<and> 1 \<le> of_nat n * (0.06::rat))"
    by (auto simp: min_def)
  also have "\<dots> = (17 \<le> n)" unfolding a b c by auto
  finally show ?thesis .
qed

lemma episodeAfter_0:
  "episodeAfter ts battle w 0 =
     \<lparr>store = (store w)\<lparr>currentBattle := Some battle, isDownloadingContent := True,
                        downloadProgress := zeroProgress\<rparr>,
      intervals = intervals w @ [episodeInterval 0],
      alerts = alerts w\<rparr>"
  by (simp add: episodeAfter_def downloadBattleContent_def testAssetDownload_def
      simulateProgress_def episodeInterval_def)

lemma episodeAfter_Suc:
  "episodeAfter ts battle w (Suc k) =
     intervalTick (length (intervals w)) (episodeAfter ts battle w k)"
  by (simp add: episodeAfter_def)

lemma tick_value:
  assumes "0 \<le> c"
  shows "min (min (of_nat k * c) 1 + c) (1::rat) = min (of_nat (Suc k) * c) 1"
proof -
  from assms have "min (min (of_nat k * c) 1 + c) 1 = min (of_nat k * c + c) 1"
    by (rule min_step)
  also have "of_nat k * c + c = of_nat (Suc k) * c"
    by (simp add: algebra_simps)
  finally show ?thesis .
qed

lemma intervalTick_active:
  assumes "intervals w = pre @ [episodeInterval k]" and "k < 17"
  shows "intervalTick (length pre) w =
     (if 17 \<le> Suc k
      then downloadFinally (notify (alert_text successAlert) (alert_severity successAlert)
             (w\<lparr>store := (store w)\<lparr>downloadProgress := simulatedAt (Suc k)\<rparr>,
                intervals := pre @ [episodeInterval (Suc k)]\<rparr>))
      else w\<lparr>store := (store w)\<lparr>downloadProgress := simulatedAt (Suc k)\<rparr>,
             intervals := pre @ [episodeInterval (Suc k)]\<rparr>)"
proof -
  have m: "min (min (of_nat k * 0.08) 1 + 0.08) (1::rat) = min (of_nat (Suc k) * 0.08) 1"
    by (rule tick_value) simp
  have e: "min (min (of_nat k * 0.12) 1 + 0.12) (1::rat) = min (of_nat (Suc k) * 0.12) 1"
    by (rule tick_value) simp
  have g: "min (min (of_nat k * 0.06) 1 + 0.06) (1::rat) = min (of_nat (Suc k) * 0.06) 1"
    by (rule tick_value) simp
  have t: "intervals w ! length pre = episodeInterval k"
    using assms(1) by simp
  have a: "length pre < length (intervals w) \<and> \<not> cleared (intervals w ! length pre)"
    using assms by (simp add: episodeInterval_def)
  have u: "(intervals w)[length pre := x] = pre @ [x]" for x
    using assms(1) by simp
  show ?thesis
    unfolding intervalTick_def Let_def t u
    using a
    apply (simp only: if_True t u)
    apply (simp only: episodeInterval_def interval.simps m e g full_iff simulatedAt_def)
    apply (simp add: t episodeInterval_def)
    done
qed

lemma intervalTick_cleared:
  assumes "intervals w = pre @ [episodeInterval k]" and "17 \<le> k"
  shows "intervalTick (length pre) w = w"
  using assms by (simp add: intervalTick_def episodeInterval_def)

lemma simulatedAt_0: "simulatedAt 0 = zeroProgress"
  by (simp add: simulatedAt_def zeroProgress_def)

lemma simulatedAt_full: "17 \<le> k \<Longrightarrow> simulatedAt k = fullProgress"
  using full_iff [of k] by (simp add: simulatedAt_def fullProgress_def)

lemma episodeInterval_full: "17 \<le> k \<Longrightarrow> episodeInterval k = episodeInterval 17"
  using full_iff [of k] full_iff [of 17] by (simp add: episodeInterval_def)

lemma episodeAfter_closed:
  "episodeAfter ts battle w k =
     \<lparr>store = (store w)\<lparr>currentBattle := Some battle, isDownloadingContent := (k < 17),
                        downloadProgress := simulatedAt k\<rparr>,
      intervals = intervals w @ [episodeInterval k],
      alerts = alerts w @ (if 17 \<le> k then [successAlert] else [])\<rparr>"
proof (induction k)
  case 0
  show ?case by (simp add: episodeAfter_0 simulatedAt_0)
next
  case (Suc k)
  let ?w = "episodeAfter ts battle w k"
  have iv: "intervals ?w = intervals w @ [episodeInterval k]"
    by (simp add: Suc.IH)
  show ?case
  proof (cases "k < 17")
    case True
    have "episodeAfter ts battle w (Suc k) = intervalTick (length (intervals w)) ?w"
      by (rule episodeAfter_Suc)
    also have "\<dots> =
      (if 17 \<le> Suc k
       then downloadFinally (notify (alert_text successAlert) (alert_severity successAlert)
             (?w\<lparr>store := (store ?w)\<lparr>downloadProgress := simulatedAt (Suc k)\<rparr>,
                  intervals := intervals w @ [episodeInterval (Suc k)]\<rparr>))
       else ?w\<lparr>store := (store ?w)\<lparr>downloadProgress := simulatedAt (Suc k)\<rparr>,
               intervals := intervals w @ [episodeInterval (Suc k)]\<rparr>)"
      using iv True by (rule intervalTick_active)
    also have "\<dots> =
      \<lparr>store = (store w)\<lparr>currentBattle := Some battle, isDownloadingContent := (Suc k < 17),
                        downloadProgress := simulatedAt (Suc k)\<rparr>,
       intervals = intervals w @ [episodeInterval (Suc k)],
       alerts = alerts w @ (if 17 \<le> Suc k then [successAlert] else [])\<rparr>"
      using True
      by (simp add: Suc.IH downloadFinally_def notify_def successAlert_def)
    finally show ?thesis .
  next
    case False
    then have k: "17 \<le> k" by simp
    have "episodeAfter ts battle w (Suc k) = intervalTick (length (intervals w)) ?w"
      by (rule episodeAfter_Suc)
    also have "\<dots> = ?w"
      using iv k by (rule intervalTick_cleared)
    also have "\<dots> =
      \<lparr>store = (store w)\<lparr>currentBattle := Some battle, isDownloadingContent := (Suc k < 17),
                        downloadProgress := simulatedAt (Suc k)\<rparr>,
       intervals = intervals w @ [episodeInterval (Suc k)],
       alerts = alerts w @ (if 17 \<le> Suc k then [successAlert] else [])\<rparr>"
      using k episodeInterval_full [of k] episodeInterval_full [of "Suc k"]
      by (simp add: Suc.IH simulatedAt_full)
    finally show ?thesis .
  qed
qed

lemma runInterval_episodeAfter:
  "k \<le> 17 \<Longrightarrow>
   runInterval (length (intervals w)) (episodeAfter ts battle w k) = episodeAfter ts battle w 17"
proof (induction "17 - k" arbitrary: k)
  case 0
  then have "k = 17" by simp
  then show ?case
    by (subst runInterval.simps) (simp add: episodeAfter_closed episodeInterval_def)
next
  case (Suc n)
  then have k: "k < 17" by simp
  have "runInterval (length (intervals w)) (episodeAfter ts battle w k)
      = runInterval (length (intervals w)) (episodeAfter ts battle w (Suc k))"
    using k
    by (subst runInterval.simps)
      (simp add: episodeAfter_Suc, simp add: episodeAfter_closed episodeInterval_def)
  also have "\<dots> = episodeAfter ts battle w 17"
    using Suc by simp
  finally show ?case .
qed

subsection \<open>Progress bookkeeping of the real branch\<close>

lemma getProgress_setProgress:
  "getProgress ty' (setProgress ty p w) = (if ty' = ty then p else getProgress ty' w)"
  by (cases ty; cases ty') (simp_all add: getProgress_def setProgress_def)

lemma alerts_setProgress: "alerts (setProgress ty p w) = alerts w"
  by (simp add: setProgress_def Let_def)

lemma flag_setProgress:
  "isDownloadingContent (store (setProgress ty p w)) = isDownloadingContent (store w)"
  by (simp add: setProgress_def Let_def)

lemma getProgress_listener:
  "getProgress ty' (createProgressListener battle ty info w) =
     (if ty' = ty \<and> info_name info = assetName battle ty then info_progress info
      else getProgress ty' w)"
  by (simp add: createProgressListener_def getProgress_setProgress)

lemma alerts_listeners: "alerts (fold (createProgressListener battle ty) rs w) = alerts w"
  by (induction rs arbitrary: w) (simp_all add: createProgressListener_def alerts_setProgress)

lemma getProgress_listeners:
  "ty' \<noteq> ty \<Longrightarrow>
   getProgress ty' (fold (createProgressListener battle ty) rs w) = getProgress ty' w"
  by (induction rs arbitrary: w) (simp_all add: getProgress_listener)

lemma fullProgress_iff:
  "(downloadProgress (store w) = fullProgress) =
     (getProgress MapAsset w = 1 \<and> getProgress EngineAsset w = 1 \<and> getProgress GameAsset w = 1)"
  by (cases "downloadProgress (store w)") (auto simp: getProgress_def fullProgress_def)

lemma alerts_awaitDownload:
  "awaitDownload battle ty t w = Inr w' \<Longrightarrow> alerts w' = alerts w"
  "awaitDownload battle ty t w = Inl (e, w') \<Longrightarrow> alerts w' = alerts w"
  by (auto simp: awaitDownload_def Let_def alerts_setProgress alerts_listeners split: if_splits)

lemma awaitDownload_Inr:
  "(\<exists>w'. awaitDownload battle ty t w = Inr w') = succeeds t"
  by (simp add: awaitDownload_def Let_def)

lemma getProgress_awaitDownload:
  "awaitDownload battle ty t w = Inr w' \<Longrightarrow>
   getProgress ty' w' = (if ty' = ty then 1 else getProgress ty' w)"
  by (auto simp: awaitDownload_def Let_def getProgress_setProgress getProgress_listeners
      split: if_splits)

lemma realDownload_alerts:
  "alerts (realDownload ts battle w) =
     alerts w @ [if succeeds (mapTask ts) \<and> succeeds (engineTask ts) \<and> succeeds (gameTask ts)
                 then successAlert else failureAlert]"
  by (auto simp: realDownload_def realDownloadTry_def downloadFinally_def downloadCatch_def
      notify_def successAlert_def failureAlert_def awaitDownload_def Let_def
      alerts_setProgress alerts_listeners split: sum.splits if_splits)

lemma realDownload_progress:
  assumes "succeeds (mapTask ts)" "succeeds (engineTask ts)" "succeeds (gameTask ts)"
  shows "downloadProgress (store (realDownload ts battle w)) = fullProgress"
proof -
  obtain w1 where w1: "awaitDownload battle MapAsset (mapTask ts) w = Inr w1"
    using assms(1) awaitDownload_Inr by blast
  obtain w2 where w2: "awaitDownload battle EngineAsset (engineTask ts) w1 = Inr w2"
    using assms(2) awaitDownload_Inr by blast
  obtain w3 where w3: "awaitDownload battle GameAsset (gameTask ts) w2 = Inr w3"
    using assms(3) awaitDownload_Inr by blast
  have "getProgress MapAsset w3 = 1" "getProgress EngineAsset w3 = 1" "getProgress GameAsset w3 = 1"
    by (simp_all add: getProgress_awaitDownload [OF w3] getProgress_awaitDownload [OF w2]
        getProgress_awaitDownload [OF w1])
  then have "downloadProgress (store w3) = fullProgress"
    by (simp add: fullProgress_iff)
  then show ?thesis
    by (simp add: realDownload_def realDownloadTry_def w1 w2 w3 downloadFinally_def notify_def)
qed

lemma realDownload_flag: "\<not> isDownloadingContent (store (realDownload ts battle w))"
  by (simp add: realDownload_def downloadFinally_def)


subsection \<open>Outcome of a download episode\<close>

lemma intervalTick_alerts:
  assumes "i < length (intervals w) \<and> \<not> cleared (intervals w ! i)"
  shows "alerts (intervalTick i w) =
    alerts w @ (if downloadProgress (store (intervalTick i w)) = fullProgress
                then [successAlert] else [])"
proof (cases "min (mapProgress (intervals w ! i) + 0.08) 1 = 1
    \<and> min (engineProgress (intervals w ! i) + 0.12) 1 = 1
    \<and> min (gameProgress (intervals w ! i) + 0.06) 1 = 1")
  case True
  with assms show ?thesis
    by (simp add: intervalTick_def Let_def downloadFinally_def notify_def fullProgress_def
        successAlert_def)
next
  case False
  with assms show ?thesis
    by (auto simp: intervalTick_def Let_def fullProgress_def)
qed

text \<open>
  C7. The success notification is sent exactly when no download fails, and then the three
  progress values are 1. In the real branch the notification that the episode appends to the log is
  the success notification when the three awaited downloads resolve, and the failure
  notification (which is a different one) as soon as one of them rejects; when all three
  resolve, the stored progress is 1 for the three assets. In the simulated branch, which has no
  failing task, the episode run to its end appends the success notification and leaves the
  three progress values at 1. Both branches leave \<^verbatim>\<open>isDownloadingContent\<close> false. In
  any state, also when several timers are active, a firing of an active timer sends the
  success notification exactly when the progress it stores is 1 for the three assets, and
  sends nothing otherwise.
\<close>

theorem download_outcome:
  "alerts (realDownload ts battle w) =
     alerts w @ [if succeeds (mapTask ts) \<and> succeeds (engineTask ts) \<and> succeeds (gameTask ts)
                 then successAlert else failureAlert]
   \<and> (succeeds (mapTask ts) \<and> succeeds (engineTask ts) \<and> succeeds (gameTask ts) \<longrightarrow>
        downloadProgress (store (realDownload ts battle w)) = fullProgress)
   \<and> \<not> isDownloadingContent (store (realDownload ts battle w))
   \<and> successAlert \<noteq> failureAlert
   \<and> alerts (runInterval (length (intervals w)) (downloadBattleContent ts battle w)) =
        alerts w @ [successAlert]
   \<and> downloadProgress (store (runInterval (length (intervals w))
        (downloadBattleContent ts battle w))) = fullProgress
   \<and> \<not> isDownloadingContent (store (runInterval (length (intervals w))
        (downloadBattleContent ts battle w)))
   \<and> (i < length (intervals w) \<and> \<not> cleared (intervals w ! i) \<longrightarrow>
        alerts (intervalTick i w) =
          alerts w @ (if downloadProgress (store (intervalTick i w)) = fullProgress
                      then [successAlert] else []))"
proof -
  have run: "runInterval (length (intervals w)) (downloadBattleContent ts battle w) =
      episodeAfter ts battle w 17"
    using runInterval_episodeAfter [of 0 w ts battle] by (simp add: episodeAfter_def)
  have "successAlert \<noteq> failureAlert"
    by (simp add: successAlert_def failureAlert_def)
  moreover have "alerts (episodeAfter ts battle w 17) = alerts w @ [successAlert]"
    by (simp add: episodeAfter_closed)
  moreover have "downloadProgress (store (episodeAfter ts battle w 17)) = fullProgress"
    by (simp add: episodeAfter_closed simulatedAt_full)
  moreover have "\<not> isDownloadingContent (store (episodeAfter ts battle w 17))"
    by (simp add: episodeAfter_closed)
  moreover have "alerts (intervalTick i w) =
      alerts w @ (if downloadProgress (store (intervalTick i w)) = fullProgress
                  then [successAlert] else [])"
    if "i < length (intervals w) \<and> \<not> cleared (intervals w ! i)"
    using that by (rule intervalTick_alerts)
  ultimately show ?thesis
    unfolding run
    using realDownload_alerts [of ts battle w] realDownload_progress [of ts battle w]
      realDownload_flag [of ts battle w]
    by blast
qed

text \<open>
  An episode of the real branch whose three downloads resolve, and one whose game download
  rejects after the three listeners have reported progress 1.
\<close>

theorem download_outcome_witness:
  "succeeds (mapTask goodTasks) \<and> succeeds (engineTask goodTasks) \<and> succeeds (gameTask goodTasks)
   \<and> alerts (realDownload goodTasks exampleBattle initialWorld) = [successAlert]
   \<and> downloadProgress (store (realDownload goodTasks exampleBattle initialWorld)) = fullProgress
   \<and> \<not> succeeds (gameTask failingTasks)
   \<and> alerts (realDownload failingTasks exampleBattle initialWorld) = [failureAlert]
   \<and> 0 < length (intervals (downloadBattleContent goodTasks exampleBattle initialWorld))
   \<and> \<not> cleared (intervals (downloadBattleContent goodTasks exampleBattle initialWorld) ! 0)
   \<and> alerts (intervalTick 0 (downloadBattleContent goodTasks exampleBattle initialWorld)) = []"
  using download_outcome [of goodTasks exampleBattle initialWorld]
    download_outcome [of failingTasks exampleBattle initialWorld]
    download_outcome [of _ _ "downloadBattleContent goodTasks exampleBattle initialWorld" 0]
  by (simp add: goodTasks_def failingTasks_def initialWorld_def downloadBattleContent_def
      testAssetDownload_def simulateProgress_def intervalTick_def Let_def fullProgress_def)

subsection \<open>The cancel command\<close>

text \<open>
  C8. Whatever the outcome of the \<^verbatim>\<open>matchmaking/cancel\<close> request, the command leaves
  the status at \<open>Idle\<close>: the call sets it before the request is sent, and the part that runs
  after the response, on success and on failure alike, does not touch the status.
\<close>

theorem cancel_always_idle:
  "status (store (sendCancelRequest response w)) = Idle
   \<and> status (store (sendCancelRequest_call w)) = Idle
   \<and> status (store (sendCancelRequest_settle response w)) = status (store w)"
  by (cases response)
    (simp_all add: sendCancelRequest_def sendCancelRequest_call_def sendCancelRequest_settle_def
      setStatus_def notify_def)

text \<open>
  A cancel whose request fails, issued after a match was accepted.
\<close>

theorem cancel_always_idle_witness:
  "status (store (sendCancelRequest (Inl RequestFailed) acceptedWorld)) = Idle
   \<and> status (store acceptedWorld) = MatchAccepted"
  using cancel_always_idle [of "Inl RequestFailed" acceptedWorld]
  by (simp add: acceptedWorld_def sendReadyRequest_def sendReadyRequest_call_def
      sendReadyRequest_settle_def setStatus_def)

subsection \<open>The branch that runs\<close>



subsection \<open>A second episode\<close>

text \<open>
  C10. A call of \<^verbatim>\<open>downloadBattleContent\<close> is never refused, in any state, so also
  while an earlier episode is active: afterwards \<^verbatim>\<open>currentBattle\<close> is the new
  assignment, \<^verbatim>\<open>isDownloadingContent\<close> is true and the three progress values are 0.
\<close>

theorem new_episode_replaces:
  "currentBattle (store (downloadBattleContent ts battle w)) = Some battle
   \<and> isDownloadingContent (store (downloadBattleContent ts battle w))
   \<and> downloadProgress (store (downloadBattleContent ts battle w)) = zeroProgress"
  by (simp add: downloadBattleContent_def testAssetDownload_def simulateProgress_def)


text \<open>
  A second call while the first episode is active and has made progress.
\<close>

theorem new_episode_replaces_witness:
  "isDownloadingContent (store (intervalTick 0 (onUserSelfEvent goodTasks assignment acceptedWorld)))
   \<and> currentBattle (store (downloadBattleContent goodTasks placeholderBattle
        (intervalTick 0 (onUserSelfEvent goodTasks assignment acceptedWorld)))) =
       Some placeholderBattle
   \<and> downloadProgress (store (downloadBattleContent goodTasks placeholderBattle
        (intervalTick 0 (onUserSelfEvent goodTasks assignment acceptedWorld)))) = zeroProgress"
  using new_episode_replaces [of goodTasks placeholderBattle
      "intervalTick 0 (onUserSelfEvent goodTasks assignment acceptedWorld)"]
  by (simp add: onUserSelfEvent_def assignment_def acceptedWorld_def sendReadyRequest_def
      sendReadyRequest_call_def sendReadyRequest_settle_def setStatus_def onFoundEvent_def
      initialWorld_def downloadBattleContent_def testAssetDownload_def simulateProgress_def
      intervalTick_def Let_def)

subsection \<open>Assignments and episodes\<close>

lemma status_downloadBattleContent:
  "status (store (downloadBattleContent ts battle w)) = status (store w)"
  by (simp add: downloadBattleContent_def testAssetDownload_def simulateProgress_def)

lemma intervals_downloadBattleContent:
  "length (intervals (downloadBattleContent ts battle w)) = Suc (length (intervals w))"
  by (simp add: downloadBattleContent_def testAssetDownload_def simulateProgress_def)

lemma onUserSelfEvent_accepted:
  "status (store w) = MatchAccepted \<Longrightarrow>
   onUserSelfEvent ts \<lparr>user_currentBattle = Some battle\<rparr> w = downloadBattleContent ts battle w"
  by (simp add: onUserSelfEvent_def)

lemma repeated_events:
  "status (store w) = MatchAccepted \<Longrightarrow>
   status (store (fold (onUserSelfEvent ts) (replicate n \<lparr>user_currentBattle = Some battle\<rparr>) w))
     = MatchAccepted
   \<and> length (intervals (fold (onUserSelfEvent ts)
        (replicate n \<lparr>user_currentBattle = Some battle\<rparr>) w)) = length (intervals w) + n"
proof (induction n arbitrary: w)
  case 0
  then show ?case by simp
next
  case (Suc n)
  let ?w = "downloadBattleContent ts battle w"
  have "status (store ?w) = MatchAccepted"
    using Suc.prems by (simp add: status_downloadBattleContent)
  from Suc.IH [OF this] show ?case
    using Suc.prems
    by (simp add: onUserSelfEvent_accepted intervals_downloadBattleContent)
qed

text \<open>
  C2, as amended. While the status is \<open>MatchAccepted\<close>, every \<^verbatim>\<open>user/self\<close> event that
  carries an assignment calls \<^verbatim>\<open>downloadBattleContent\<close>, also when the assignment is
  the one of the event before: \<open>n\<close> such events register \<open>n\<close> timers, that is start
  \<open>n\<close> episodes, and each of them resets the progress to 0. An event without an assignment,
  or one that arrives in another status, changes nothing.
\<close>

theorem every_assignment_event_starts_an_episode:
  "(status (store w) = MatchAccepted \<longrightarrow>
      length (intervals (fold (onUserSelfEvent ts)
        (replicate n \<lparr>user_currentBattle = Some battle\<rparr>) w)) = length (intervals w) + n
      \<and> downloadProgress (store (onUserSelfEvent ts \<lparr>user_currentBattle = Some battle\<rparr> w))
          = zeroProgress)
   \<and> (status (store w) \<noteq> MatchAccepted \<or> user_currentBattle ev = None \<longrightarrow>
        onUserSelfEvent ts ev w = w)"
proof -
  have "onUserSelfEvent ts ev w = w"
    if "status (store w) \<noteq> MatchAccepted \<or> user_currentBattle ev = None"
    using that by (auto simp: onUserSelfEvent_def split: option.splits)
  moreover have "downloadProgress (store (onUserSelfEvent ts \<lparr>user_currentBattle = Some battle\<rparr> w))
      = zeroProgress" if "status (store w) = MatchAccepted"
    using that
    by (simp add: onUserSelfEvent_accepted downloadBattleContent_def testAssetDownload_def
        simulateProgress_def)
  ultimately show ?thesis
    using repeated_events [of w ts n battle] by blast
qed

text \<open>
  Three events with the same assignment after a match was accepted, and one event in the
  initial state.
\<close>

theorem every_assignment_event_starts_an_episode_witness:
  "status (store acceptedWorld) = MatchAccepted
   \<and> length (intervals (fold (onUserSelfEvent goodTasks)
        (replicate 3 \<lparr>user_currentBattle = Some exampleBattle\<rparr>) acceptedWorld)) = 3
   \<and> status (store initialWorld) \<noteq> MatchAccepted
   \<and> onUserSelfEvent goodTasks assignment initialWorld = initialWorld"
  using every_assignment_event_starts_an_episode
      [of acceptedWorld goodTasks 3 exampleBattle assignment]
    every_assignment_event_starts_an_episode
      [of initialWorld goodTasks 0 exampleBattle assignment]
  by (simp add: acceptedWorld_def sendReadyRequest_def sendReadyRequest_call_def
      sendReadyRequest_settle_def setStatus_def onFoundEvent_def initialWorld_def
      initialStore_def)

text \<open>
  C2 as stated fails: after a match was accepted, the same \<^verbatim>\<open>user/self\<close> event delivered
  twice starts two episodes, and the second delivery throws away the progress that the first
  episode had made.
\<close>

theorem same_assignment_twice_counterexample:
  "status (store acceptedWorld) = MatchAccepted
   \<and> length (intervals (onUserSelfEvent goodTasks assignment acceptedWorld)) = 1
   \<and> progress_map (downloadProgress (store
        (intervalTick 0 (onUserSelfEvent goodTasks assignment acceptedWorld)))) = 0.08
   \<and> length (intervals (onUserSelfEvent goodTasks assignment
        (intervalTick 0 (onUserSelfEvent goodTasks assignment acceptedWorld)))) = 2
   \<and> progress_map (downloadProgress (store (onUserSelfEvent goodTasks assignment
        (intervalTick 0 (onUserSelfEvent goodTasks assignment acceptedWorld))))) = 0"
  by (simp add: onUserSelfEvent_def assignment_def acceptedWorld_def sendReadyRequest_def
      sendReadyRequest_call_def sendReadyRequest_settle_def setStatus_def onFoundEvent_def
      initialWorld_def initialStore_def downloadBattleContent_def testAssetDownload_def
      simulateProgress_def intervalTick_def Let_def zeroProgress_def)

subsection \<open>Progress reports\<close>

lemma min_scale_mono:
  assumes "k \<le> k'" and "0 \<le> c"
  shows "min (of_nat k * c) (1::rat) \<le> min (of_nat k' * c) 1"
proof -
  have "(of_nat k :: rat) \<le> of_nat k'" using assms(1) by simp
  then have "of_nat k * c \<le> of_nat k' * c" using assms(2) by (rule mult_right_mono)
  then show ?thesis by (rule min.mono) simp
qed

lemma simulatedAt_mono:
  assumes "k \<le> k'"
  shows "progress_map (simulatedAt k) \<le> progress_map (simulatedAt k')"
    and "progress_engine (simulatedAt k) \<le> progress_engine (simulatedAt k')"
    and "progress_game (simulatedAt k) \<le> progress_game (simulatedAt k')"
  using min_scale_mono [OF assms, of "0.08"] min_scale_mono [OF assms, of "0.12"]
    min_scale_mono [OF assms, of "0.06"]
  by (simp_all add: simulatedAt_def)

text \<open>
  C3, as amended. The listener of an asset stores the progress of every report that carries
  the name of that asset, whatever the value stored before, and ignores a report with another
  name: nothing is discarded for being lower than the stored value. In the simulated branch
  the values that the firings of one episode's timer store for an asset do not decrease, as
  long as no other timer fires in between (the timers of all active episodes write the same
  store).
\<close>

theorem latest_report_is_stored:
  "getProgress ty (createProgressListener battle ty info w) =
     (if info_name info = assetName battle ty then info_progress info else getProgress ty w)
   \<and> (k \<le> k' \<longrightarrow>
        getProgress ty (episodeAfter ts battle w k) \<le> getProgress ty (episodeAfter ts battle w k'))"
proof -
  have "getProgress ty (episodeAfter ts battle w k) \<le> getProgress ty (episodeAfter ts battle w k')"
    if "k \<le> k'"
    using simulatedAt_mono [OF that]
    by (cases ty) (simp_all add: getProgress_def episodeAfter_closed)
  then show ?thesis
    by (simp add: getProgress_listener)
qed

text \<open>
  A report of 0.3 after one of 0.5 is stored; a report for another asset is not; the game's
  progress after 2 and after 5 firings.
\<close>

theorem latest_report_is_stored_witness:
  "getProgress MapAsset (createProgressListener exampleBattle MapAsset (report ''M'' 0.3)
      (createProgressListener exampleBattle MapAsset (report ''M'' 0.5) initialWorld)) = 0.3
   \<and> getProgress MapAsset (createProgressListener exampleBattle MapAsset (report ''X'' 0.3)
      (createProgressListener exampleBattle MapAsset (report ''M'' 0.5) initialWorld)) = 0.5
   \<and> (2::nat) \<le> 5
   \<and> getProgress GameAsset (episodeAfter goodTasks exampleBattle initialWorld 2)
       \<le> getProgress GameAsset (episodeAfter goodTasks exampleBattle initialWorld 5)"
  using latest_report_is_stored [of MapAsset exampleBattle "report ''M'' 0.3"
      "createProgressListener exampleBattle MapAsset (report ''M'' 0.5) initialWorld" 2 5]
    latest_report_is_stored [of MapAsset exampleBattle "report ''X'' 0.3"
      "createProgressListener exampleBattle MapAsset (report ''M'' 0.5) initialWorld" 2 5]
    latest_report_is_stored [of MapAsset exampleBattle "report ''M'' 0.5" initialWorld 2 5]
    latest_report_is_stored [of GameAsset exampleBattle "report ''M'' 0.5" initialWorld 2 5
      goodTasks]
  by (simp add: report_def exampleBattle_def assetName_def)

text \<open>
  C3 as stated fails: a report of 0.5 for the map followed by a report of 0.3 leaves 0.3 in
  the store. In the simulated branch the store can go down as well, when two episodes are
  active: the timer of the first has stored 0.24 for the map, and the next firing of the
  timer of the second stores 0.08.
\<close>

theorem decreasing_report_counterexample:
  "getProgress MapAsset (createProgressListener exampleBattle MapAsset (report ''M'' 0.5)
      initialWorld) = 0.5
   \<and> getProgress MapAsset (createProgressListener exampleBattle MapAsset (report ''M'' 0.3)
      (createProgressListener exampleBattle MapAsset (report ''M'' 0.5) initialWorld)) = 0.3
   \<and> map cleared (intervals overlapWorld) = [False, False]
   \<and> getProgress MapAsset overlapWorld = 0.24
   \<and> getProgress MapAsset (intervalTick 1 overlapWorld) = 0.08"
proof -
  have ow: "overlapWorld =
     \<lparr>store = initialStore
        \<lparr>status := MatchAccepted, currentBattle := Some exampleBattle,
         isDownloadingContent := True,
         downloadProgress :=
           \<lparr>progress_map = 0.24, progress_engine = 0.36, progress_game = 0.18\<rparr>\<rparr>,
      intervals =
        [\<lparr>mapProgress = 0.24, engineProgress = 0.36, gameProgress = 0.18, cleared = False\<rparr>,
         \<lparr>mapProgress = 0, engineProgress = 0, gameProgress = 0, cleared = False\<rparr>],
      alerts = []\<rparr>"
    by (simp add: overlapWorld_def onUserSelfEvent_def assignment_def acceptedWorld_def
        sendReadyRequest_def sendReadyRequest_call_def sendReadyRequest_settle_def setStatus_def
        onFoundEvent_def initialWorld_def initialStore_def downloadBattleContent_def
        testAssetDownload_def simulateProgress_def intervalTick_def Let_def zeroProgress_def)
  show ?thesis
    unfolding ow
    by (simp add: createProgressListener_def report_def exampleBattle_def assetName_def
        setProgress_def getProgress_def initialWorld_def intervalTick_def Let_def)
qed

subsection \<open>The three checks\<close>

lemma mapsLoop_iff:
  "mapsLoop (map (dbMaps invt) ms) = (\<exists>m\<in>set ms. \<not> isMapInstalled invt m)"
  by (induction ms) (auto simp: isMapInstalled_def split: option.splits)

text \<open>
  C1, as amended. For an acceptable list that is present, the engine check and the game check
  answer "needed" exactly when the list is not empty and none of its entries is installed. The
  map check answers "needed" exactly when the list is not empty and at least one of its maps
  is not installed, provided that the database query succeeds; when the query fails the
  check fails.
\<close>

theorem readiness_checks:
  "checkIfEngineIsNeeded invt (Some es) =
     (es \<noteq> [] \<and> \<not> (\<exists>v\<in>set es. isEngineInstalled invt v))
   \<and> checkIfGameIsNeeded invt (Some gs) =
     (gs \<noteq> [] \<and> \<not> (\<exists>g\<in>set gs. isGameInstalled invt g))
   \<and> checkIfAnyMapsAreNeeded invt (Some ms) =
     (if ms \<noteq> [] \<and> dbRejects invt ms then Inl QueryFailed
      else Inr (ms \<noteq> [] \<and> (\<exists>m\<in>set ms. \<not> isMapInstalled invt m)))"
  by (auto simp: checkIfEngineIsNeeded_def checkIfGameIsNeeded_def checkIfAnyMapsAreNeeded_def
      bulkGet_def mapsLoop_iff isEngineInstalled_def isGameInstalled_def list_ex_iff
      Let_def)

text \<open>
  The checks on an inventory with map \<open>A\<close>, engine \<open>E\<close> and game \<open>G\<close>.
\<close>

theorem readiness_checks_witness:
  "checkIfEngineIsNeeded partialInventory (Some [''E2'', ''E3''])
   \<and> \<not> checkIfEngineIsNeeded partialInventory (Some [''E2'', ''E''])
   \<and> checkIfGameIsNeeded partialInventory (Some [''G2''])
   \<and> \<not> checkIfGameIsNeeded partialInventory (Some [''G'', ''G2''])
   \<and> checkIfAnyMapsAreNeeded partialInventory (Some [''A'']) = Inr False
   \<and> checkIfAnyMapsAreNeeded partialInventory (Some [''A'', ''B'']) = Inr True"
  using readiness_checks [of partialInventory "[''E2'', ''E3'']" "[''G2'']" "[''A'']"]
    readiness_checks [of partialInventory "[''E2'', ''E'']" "[''G'', ''G2'']" "[''A'', ''B'']"]
  by (simp add: partialInventory_def isEngineInstalled_def isGameInstalled_def
      isMapInstalled_def)

text \<open>
  C1 as stated fails for the maps: map \<open>A\<close> of the acceptable list \<open>[A, B]\<close> is installed,
  and the check does not answer the negation of "\<open>A\<close> or \<open>B\<close> is installed": it answers
  "needed".
\<close>

theorem maps_needed_counterexample:
  "isMapInstalled partialInventory ''A''
   \<and> checkIfAnyMapsAreNeeded partialInventory (Some [''A'', ''B'']) \<noteq>
       Inr (\<not> (isMapInstalled partialInventory ''A'' \<or> isMapInstalled partialInventory ''B''))"
  by (simp add: partialInventory_def isMapInstalled_def checkIfAnyMapsAreNeeded_def bulkGet_def)


subsection \<open>The refresh of the playlist list\<close>

lemma store_listCatch [simp]:
  "downloadsRequired (store (listCatch w)) = downloadsRequired (store w)"
  "playlists (store (listCatch w)) = playlists (store w)"
  "queueError (store (listCatch w)) = Some ''Failed to retrieve available queues''"
  by (simp_all add: listCatch_def notify_def Let_def)

lemma store_listFinally [simp]:
  "downloadsRequired (store (listFinally w)) = downloadsRequired (store w)"
  "playlists (store (listFinally w)) = playlists (store w)"
  "queueError (store (listFinally w)) = queueError (store w)"
  by (simp_all add: listFinally_def)

lemma store_writeRecord [simp]:
  "downloadsRequired (store (writeRecord q r w)) = (downloadsRequired (store w))(playlist_id q \<mapsto> r)"
  "playlists (store (writeRecord q r w)) = playlists (store w)"
  "queueError (store (writeRecord q r w)) = queueError (store w)"
  by (simp_all add: writeRecord_def)














lemma listedWorld_eq:
  "listedWorld =
     \<lparr>store = initialStore
        \<lparr>playlists := [playlistA],
         downloadsRequired :=
           [''1v1'' \<mapsto> \<lparr>mapsNeeded = False, engineNeeded = False, gameNeeded = False,
                         engineVersion = ''E'', gameVersion = ''G''\<rparr>]\<rparr>,
      intervals = [], alerts = []\<rparr>"
  by (simp add: listedWorld_def sendListRequest_def sendListRequest_states_def Let_def
      queueTask_def checkIfAnyMapsAreNeeded_def bulkGet_def
      partialInventory_def playlistA_def checkIfEngineIsNeeded_def
      checkIfGameIsNeeded_def firstOrEmpty_def writeRecord_def listFinally_def
      initialWorld_def initialStore_def)





subsection \<open>The assignment and the progress across status changes\<close>

lemma battleFields_setStatus: "battleFields (setStatus st w) = battleFields w"
  by (simp add: battleFields_def setStatus_def)

lemma battleFields_notify: "battleFields (notify t s w) = battleFields w"
  by (simp add: battleFields_def notify_def)

text \<open>
  C6, as amended. A \<^verbatim>\<open>user/self\<close> event starts an episode only while the status is
  \<open>MatchAccepted\<close>. The queue command, however, starts one in any status, as soon as the
  selected queue has a readiness record: afterwards \<^verbatim>\<open>currentBattle\<close> is the
  placeholder assignment, the progress is 0 and one more timer is registered. No step that
  sets the status to \<open>Idle\<close> (the cancelled event, the cancel command, a failed ready or
  queue request) changes \<^verbatim>\<open>currentBattle\<close> or the progress.
\<close>

theorem status_does_not_govern_battle_fields:
  "(status (store w) \<noteq> MatchAccepted \<longrightarrow> onUserSelfEvent ts ev w = w)
   \<and> (downloadsRequired (store w) (selectedQueue (store w)) \<noteq> None \<longrightarrow>
        battleFields (sendQueueRequest ts invt listResponse order queueResponse w) =
          (Some placeholderBattle, zeroProgress)
        \<and> length (intervals (sendQueueRequest ts invt listResponse order queueResponse w)) =
            Suc (length (intervals w)))
   \<and> battleFields (onCancelledEvent w) = battleFields w
   \<and> battleFields (sendCancelRequest response w) = battleFields w
   \<and> battleFields (sendReadyRequest_settle response w) = battleFields w
   \<and> battleFields (sendQueueRequest_settle response w) = battleFields w"
proof -
  have "onUserSelfEvent ts ev w = w" if "status (store w) \<noteq> MatchAccepted"
    using that by (simp add: onUserSelfEvent_def split: option.splits)
  moreover have "battleFields (sendQueueRequest_settle r w') = battleFields w'" for r w'
    by (cases r) (simp_all add: sendQueueRequest_settle_def battleFields_def setStatus_def
        notify_def)
  moreover have "battleFields (sendQueueRequest_call ts w) = (Some placeholderBattle, zeroProgress)"
    by (simp add: sendQueueRequest_call_def battleFields_def setStatus_def
        downloadBattleContent_def testAssetDownload_def simulateProgress_def)
  moreover have "length (intervals (sendQueueRequest_settle r (sendQueueRequest_call ts w))) =
      Suc (length (intervals w))" for r
    by (cases r) (simp_all add: sendQueueRequest_settle_def sendQueueRequest_call_def
        setStatus_def notify_def downloadBattleContent_def testAssetDownload_def
        simulateProgress_def)
  moreover have "battleFields (onCancelledEvent w) = battleFields w"
    by (simp add: onCancelledEvent_def battleFields_setStatus)
  moreover have "battleFields (sendCancelRequest response w) = battleFields w"
    by (cases response) (simp_all add: sendCancelRequest_def sendCancelRequest_call_def
        sendCancelRequest_settle_def battleFields_def setStatus_def notify_def)
  moreover have "battleFields (sendReadyRequest_settle response w) = battleFields w"
    by (cases response) (simp_all add: sendReadyRequest_settle_def battleFields_def
        setStatus_def notify_def)
  ultimately show ?thesis
    by (simp add: sendQueueRequest_def)
qed

text \<open>
  A state with a readiness record for the selected queue, in status \<open>Idle\<close>.
\<close>

theorem status_does_not_govern_battle_fields_witness:
  "status (store listedWorld) \<noteq> MatchAccepted
   \<and> onUserSelfEvent goodTasks assignment listedWorld = listedWorld
   \<and> downloadsRequired (store listedWorld) (selectedQueue (store listedWorld)) \<noteq> None
   \<and> battleFields (sendQueueRequest goodTasks partialInventory (Inr []) [] (Inr ()) listedWorld)
       = (Some placeholderBattle, zeroProgress)
   \<and> length (intervals (sendQueueRequest goodTasks partialInventory (Inr []) [] (Inr ())
        listedWorld)) = 1"
  using status_does_not_govern_battle_fields
      [of listedWorld goodTasks assignment partialInventory "Inr []" "[]" "Inr ()"]
  by (simp add: listedWorld_eq initialStore_def)

text \<open>
  C6 as stated fails: the queue command, issued in status \<open>Idle\<close>, starts an episode; when
  its request fails the status is \<open>Idle\<close> again, with \<^verbatim>\<open>currentBattle\<close> defined and an
  episode active, whose next timer firing stores a progress that is not 0.
\<close>

theorem battle_fields_outside_accepted_counterexample:
  "status (store listedWorld) = Idle
   \<and> currentBattle (store listedWorld) = None
   \<and> status (store (sendQueueRequest goodTasks partialInventory (Inr []) []
        (Inl RequestFailed) listedWorld)) = Idle
   \<and> currentBattle (store (sendQueueRequest goodTasks partialInventory (Inr []) []
        (Inl RequestFailed) listedWorld)) = Some placeholderBattle
   \<and> isDownloadingContent (store (sendQueueRequest goodTasks partialInventory (Inr []) []
        (Inl RequestFailed) listedWorld))
   \<and> status (store (intervalTick 0 (sendQueueRequest goodTasks partialInventory (Inr []) []
        (Inl RequestFailed) listedWorld))) = Idle
   \<and> progress_map (downloadProgress (store (intervalTick 0 (sendQueueRequest goodTasks
        partialInventory (Inr []) [] (Inl RequestFailed) listedWorld)))) = 0.08"
  by (simp add: listedWorld_eq initialStore_def sendQueueRequest_def sendQueueRequest_call_def
      sendQueueRequest_settle_def setStatus_def notify_def downloadBattleContent_def
      testAssetDownload_def simulateProgress_def intervalTick_def Let_def)

end
